theory Spec2Isabelle
  imports Main "HOL-Library.Word"
begin

section \<open>The pseudo-TTY key scanner \<^verbatim>\<open>kscan_ptty.c\<close>\<close>

text \<open>
  The driver reads one command line per tick from a UART, parses it with \<^verbatim>\<open>sscanf\<close>
  and either reports a key event to the registered callback or waits. The model follows
  the C file function by function. What the C code does to the outside (log lines, the
  callback, \<^verbatim>\<open>k_work_schedule\<close>, \<^verbatim>\<open>exit\<close>) is recorded as a list of actions in the order
  the code performs them.
\<close>

subsection \<open>Constants and machine types\<close>

text \<open>\<^verbatim>\<open>#define MAX_CMD_LEN 128\<close>\<close>

definition MAX_CMD_LEN :: nat where
  "MAX_CMD_LEN = 128"

text \<open>
  The header \<^verbatim>\<open>errno.h\<close> is not part of the source file. The values are the ones of
  Zephyr's minimal C library; the theorems name the constants and only use that they
  are positive and pairwise distinct.
\<close>

definition EINVAL :: int where
  "EINVAL = 22"

definition ENODATA :: int where
  "ENODATA = 61"

definition EOVERFLOW :: int where
  "EOVERFLOW = 139"

text \<open>
  A C \<^verbatim>\<open>int\<close> that holds a scanned number is a 32-bit word, read as two's complement
  by \<open>sint\<close>. Return codes and exit codes are small and never computed with, so they are
  plain integers.
\<close>

type_synonym cint = "32 word"

definition NUL :: char where
  "NUL = CHR 0x00"

definition NL :: char where
  "NL = CHR 0x0A"

subsection \<open>The character source\<close>

text \<open>
  \<^verbatim>\<open>int uart_poll_in(const struct device *dev, unsigned char *p_char)\<close> belongs to the
  UART driver, so it is a parameter of the model: a function from the state of the
  source and the current content of \<^verbatim>\<open>*p_char\<close> to the return code, the new content of
  \<^verbatim>\<open>*p_char\<close> and the next state of the source. Return code 0 means that a character
  arrived; every other code is a failed read.
\<close>

type_synonym 's uart_poll_in = "'s \<Rightarrow> char \<Rightarrow> int \<times> char \<times> 's"

subsection \<open>\<^verbatim>\<open>recv_line\<close>\<close>

text \<open>
  How the \<^verbatim>\<open>while\<close> loop of \<^verbatim>\<open>recv_line\<close> was left: by \<^verbatim>\<open>return -EOVERFLOW\<close>, or by
  falling out of it (the loop condition failed, or \<^verbatim>\<open>break\<close>).
\<close>

datatype loop_exit = Return_overflow | Fell_out

text \<open>
  The loop. \<open>out\<close> is the text written to \<^verbatim>\<open>buf\<close> so far, so \<^verbatim>\<open>out - buf\<close> of the C code
  is \<open>length out\<close>; \<open>c\<close> is the local variable \<^verbatim>\<open>c\<close>. The result is how the loop was
  left, the last value of \<^verbatim>\<open>c\<close>, the text in \<^verbatim>\<open>buf\<close> and the state of the source.
\<close>

function recv_line_loop ::
  "'s uart_poll_in \<Rightarrow> 's \<Rightarrow> char \<Rightarrow> string \<Rightarrow> loop_exit \<times> char \<times> string \<times> 's" where
  "recv_line_loop poll s c out =
     (case poll s c of (rc, c', s') \<Rightarrow>
        if rc \<noteq> 0 then (Fell_out, c', out, s')
        else if length out \<ge> MAX_CMD_LEN - 1 then (Return_overflow, c', out, s')
        else if c' = NL \<or> c' = NUL then (Fell_out, c', out, s')
        else recv_line_loop poll s' c' (out @ [c']))"
  by pat_completeness auto
termination
  by (relation "measure (\<lambda>(poll, s, c, out). MAX_CMD_LEN - 1 - length out)") auto

declare recv_line_loop.simps [simp del]

text \<open>
  \<^verbatim>\<open>recv_line\<close> returns its \<^verbatim>\<open>int\<close> result, the text it has written to \<^verbatim>\<open>buf\<close> (on return
  code 0 the buffer holds this text and a terminating NUL) and the state of the source.
\<close>

definition recv_line :: "'s uart_poll_in \<Rightarrow> 's \<Rightarrow> int \<times> string \<times> 's" where
  "recv_line poll s =
     (case recv_line_loop poll s NUL [] of
        (Return_overflow, c, out, s') \<Rightarrow> (- EOVERFLOW, out, s')
      | (Fell_out, c, out, s') \<Rightarrow>
          if out = [] \<and> c = NUL then (- ENODATA, out, s') else (0, out, s'))"

subsection \<open>\<^verbatim>\<open>sscanf\<close>, as far as the parser uses it\<close>

text \<open>
  \<^verbatim>\<open>sscanf\<close> is the C library's. The model follows ISO C (7.21.6.2, \<^verbatim>\<open>fscanf\<close>) for the
  three kinds of directive that occur in the driver's format strings: white space, an
  ordinary character and \<^verbatim>\<open>%d\<close>. The input is the text of the C string, without its
  terminating NUL.
\<close>

text \<open>\<^verbatim>\<open>isspace\<close> and \<^verbatim>\<open>isdigit\<close> in the C locale.\<close>

definition isspace :: "char \<Rightarrow> bool" where
  "isspace c = (c = CHR '' '' \<or> (9 \<le> (of_char c :: nat) \<and> (of_char c :: nat) \<le> 13))"

definition isdigit :: "char \<Rightarrow> bool" where
  "isdigit c = (48 \<le> (of_char c :: nat) \<and> (of_char c :: nat) \<le> 57)"

datatype directive = Whitespace | Ordinary char | Conv_d

text \<open>The directives of a format string.\<close>

fun directives :: "string \<Rightarrow> directive list" where
  "directives [] = []"
| "directives [c] = [if isspace c then Whitespace else Ordinary c]"
| "directives (c # d # fmt) =
     (if c = CHR ''%'' \<and> d = CHR ''d'' then Conv_d # directives fmt
      else (if isspace c then Whitespace else Ordinary c) # directives (d # fmt))"

text \<open>The value of a sequence of decimal digits, as \<^verbatim>\<open>strtol\<close> with base 10 reads it.\<close>

definition digits_value :: "string \<Rightarrow> int" where
  "digits_value ds = foldl (\<lambda>a d. 10 * a + (of_char d - 48)) 0 ds"

text \<open>
  The outcome of one \<^verbatim>\<open>%d\<close>: an input failure (the input ended before any character of
  the number), a matching failure (no decimal integer stands there), or the number read
  and the input that remains.
\<close>

datatype conversion = Input_failure | Matching_failure | Converted int string

text \<open>
  \<^verbatim>\<open>%d\<close> skips white space, then reads an optional sign and the longest run of digits.
  A sign without a digit after it is a matching failure.
\<close>

definition conv_d :: "string \<Rightarrow> conversion" where
  "conv_d inp =
     (case dropWhile isspace inp of
        [] \<Rightarrow> Input_failure
      | c # cs \<Rightarrow>
          (let body = (if c = CHR ''-'' \<or> c = CHR ''+'' then cs else c # cs);
               ds = takeWhile isdigit body
           in if ds = [] then Matching_failure
              else Converted (if c = CHR ''-'' then - digits_value ds else digits_value ds)
                     (dropWhile isdigit body)))"

text \<open>\<^verbatim>\<open>EOF\<close> of \<^verbatim>\<open>stdio.h\<close>.\<close>

definition EOF :: int where
  "EOF = - 1"

text \<open>
  Running the directives over the input. \<open>vs\<close> are the values assigned so far, in the
  order of the pointer arguments. The result is the return value of \<^verbatim>\<open>sscanf\<close> (the
  number of values assigned, or \<^verbatim>\<open>EOF\<close> when the input fails before the first
  conversion) and the values assigned. ISO C leaves the stored value undefined when the
  number does not fit the \<^verbatim>\<open>int\<close>; the model stores it modulo \<open>2 ^ 32\<close>, and no theorem
  below reads such a value.
\<close>

fun scan :: "directive list \<Rightarrow> string \<Rightarrow> cint list \<Rightarrow> int \<times> cint list" where
  "scan [] inp vs = (int (length vs), vs)"
| "scan (Whitespace # ds) inp vs = scan ds (dropWhile isspace inp) vs"
| "scan (Ordinary c # ds) inp vs =
     (case inp of
        [] \<Rightarrow> (if vs = [] then EOF else int (length vs), vs)
      | x # inp' \<Rightarrow> if x = c then scan ds inp' vs else (int (length vs), vs))"
| "scan (Conv_d # ds) inp vs =
     (case conv_d inp of
        Input_failure \<Rightarrow> (if vs = [] then EOF else int (length vs), vs)
      | Matching_failure \<Rightarrow> (int (length vs), vs)
      | Converted v rest \<Rightarrow> scan ds rest (vs @ [word_of_int v]))"

text \<open>
  \<^verbatim>\<open>sscanf(cmd, fmt, &args[0], &args[1])\<close> on the array \<^verbatim>\<open>int args[2]\<close>: the values assigned
  overwrite the first elements of \<^verbatim>\<open>args\<close>, the others keep their content.
\<close>

definition sscanf :: "string \<Rightarrow> string \<Rightarrow> cint \<times> cint \<Rightarrow> int \<times> cint \<times> cint" where
  "sscanf cmd fmt args =
     (case scan (directives fmt) cmd [] of (n, vs) \<Rightarrow>
        (n, case vs of [] \<Rightarrow> args
            | [v0] \<Rightarrow> (v0, snd args)
            | v0 # v1 # _ \<Rightarrow> (v0, v1)))"

subsection \<open>\<^verbatim>\<open>kscan_parse_command\<close>\<close>

text \<open>
  \<open>cmd\<close> is the text of the C string \<^verbatim>\<open>cmd\<close>; \<^verbatim>\<open>cmd[0]\<close> of an empty string is its
  terminating NUL. The result is the return value (the character code of the command, or
  \<^verbatim>\<open>-EINVAL\<close>) and the content of \<^verbatim>\<open>args\<close> afterwards. The first \<^verbatim>\<open>switch\<close> chooses the format,
  the second one validates the number of values assigned.
\<close>

definition kscan_parse_command :: "string \<Rightarrow> cint \<times> cint \<Rightarrow> int \<times> cint \<times> cint" where
  "kscan_parse_command cmd args =
     (let cmd0 = (case cmd of [] \<Rightarrow> NUL | c # _ \<Rightarrow> c) in
      if cmd0 = CHR ''p'' \<or> cmd0 = CHR ''r'' then
        (case sscanf cmd (if cmd0 = CHR ''p'' then ''p %d %d'' else ''r %d %d'') args of
           (n, args') \<Rightarrow>
             if n = 1 then (of_char cmd0, (fst args', 0))
             else if n \<noteq> 2 then (- EINVAL, args')
             else (of_char cmd0, args'))
      else if cmd0 = CHR ''w'' then
        (case sscanf cmd ''w %d'' args of
           (n, args') \<Rightarrow>
             if n \<noteq> 1 then (- EINVAL, args')
             else (of_char cmd0, args'))
      else (- EINVAL, args))"

subsection \<open>Driver state, configuration and what the driver does to the outside\<close>

text \<open>\<^verbatim>\<open>struct kscan_ptty_config\<close>\<close>

record kscan_ptty_config =
  delay_ms :: cint
  exit_after :: bool

text \<open>
  \<^verbatim>\<open>struct kscan_ptty_data\<close>. The callback is a function pointer: \<open>None\<close> is the null
  pointer, \<open>Some cb\<close> points to the sink \<open>cb\<close>. The member \<^verbatim>\<open>work\<close> belongs to the kernel's
  work queue; the calls the driver makes on it are recorded as actions.
\<close>

record 'cb kscan_ptty_data =
  callback :: "'cb option"
  cmd_idx :: cint

text \<open>
  The calls that leave the driver, with their arguments: the log macros (one constructor
  per message of the source), the call of the sink through the callback pointer and
  \<^verbatim>\<open>k_work_schedule(q, K_MSEC(ms))\<close>.
\<close>

datatype 'cb action =
    LOG_INF_all_processed
  | LOG_ERR_too_long string
  | LOG_ERR_unknown int
  | LOG_DBG_wait cint cint
  | LOG_DBG_event cint bool cint cint
  | LOG_ERR_invalid string
  | Callback 'cb cint cint bool
  | K_work_schedule cint

text \<open>
  How a call of the work handler ends: it returns, the process exits with a code, or the
  handler calls through a null callback pointer.
\<close>

datatype ending = Returned | Exited int | Null_callback_called

text \<open>The sink calls and the scheduling calls among a list of actions, in order.\<close>

fun sink_calls :: "'cb action list \<Rightarrow> (cint \<times> cint \<times> bool) list" where
  "sink_calls [] = []"
| "sink_calls (Callback cb row col pressed # as) = (row, col, pressed) # sink_calls as"
| "sink_calls (a # as) = sink_calls as"

fun schedule_calls :: "'cb action list \<Rightarrow> cint list" where
  "schedule_calls [] = []"
| "schedule_calls (K_work_schedule ms # as) = ms # schedule_calls as"
| "schedule_calls (a # as) = schedule_calls as"

text \<open>The error messages among a list of actions.\<close>

fun error_logs :: "'cb action list \<Rightarrow> 'cb action list" where
  "error_logs [] = []"
| "error_logs (LOG_ERR_too_long l # as) = LOG_ERR_too_long l # error_logs as"
| "error_logs (LOG_ERR_unknown e # as) = LOG_ERR_unknown e # error_logs as"
| "error_logs (LOG_ERR_invalid l # as) = LOG_ERR_invalid l # error_logs as"
| "error_logs (a # as) = error_logs as"

subsection \<open>\<^verbatim>\<open>kscan_ptty_configure\<close>\<close>

text \<open>The result is the return value, the driver data afterwards and the actions.\<close>

definition kscan_ptty_configure ::
  "kscan_ptty_config \<Rightarrow> 'cb kscan_ptty_data \<Rightarrow> 'cb option \<Rightarrow>
     int \<times> 'cb kscan_ptty_data \<times> 'cb action list" where
  "kscan_ptty_configure cfg data cb =
     (case cb of
        None \<Rightarrow> (- EINVAL, data, [])
      | Some f \<Rightarrow> (0, data\<lparr>callback := Some f\<rparr>, [K_work_schedule (delay_ms cfg)]))"

subsection \<open>\<^verbatim>\<open>kscan_ptty_work_handler\<close>\<close>

text \<open>
  The end of the handler, after the second \<^verbatim>\<open>switch\<close>: the debug line (which counts the
  command), the call through \<^verbatim>\<open>data->callback\<close> and the rescheduling after
  \<^verbatim>\<open>kscan_ptty_config.delay_ms\<close>. The debug lines are modelled as compiled in, so each
  of them counts \<^verbatim>\<open>cmd_idx\<close> up; the counter is diagnostic only.
\<close>

definition report_key ::
  "kscan_ptty_config \<Rightarrow> 'cb kscan_ptty_data \<Rightarrow> cint \<times> cint \<Rightarrow> bool \<Rightarrow>
     'cb action list \<times> ending \<times> 'cb kscan_ptty_data" where
  "report_key cfg data args is_press =
     (let log = LOG_DBG_event (cmd_idx data) is_press (fst args) (snd args);
          data' = data\<lparr>cmd_idx := cmd_idx data + 1\<rparr>
      in case callback data of
           None \<Rightarrow> ([log], Null_callback_called, data')
         | Some cb \<Rightarrow>
             ([log, Callback cb (fst args) (snd args) is_press,
               K_work_schedule (delay_ms cfg)], Returned, data'))"

text \<open>
  The second \<^verbatim>\<open>switch\<close>, on the result of \<^verbatim>\<open>kscan_parse_command\<close> with
  \<^verbatim>\<open>int args[2] = {-1, -1}\<close>.
\<close>

definition run_command ::
  "kscan_ptty_config \<Rightarrow> 'cb kscan_ptty_data \<Rightarrow> string \<Rightarrow>
     'cb action list \<times> ending \<times> 'cb kscan_ptty_data" where
  "run_command cfg data cmd =
     (case kscan_parse_command cmd (- 1, - 1) of (rc, args) \<Rightarrow>
        if rc = of_char CHR ''p'' then report_key cfg data args True
        else if rc = of_char CHR ''r'' then report_key cfg data args False
        else if rc = of_char CHR ''w'' then
          ([LOG_DBG_wait (cmd_idx data) (fst args), K_work_schedule (fst args)], Returned,
           data\<lparr>cmd_idx := cmd_idx data + 1\<rparr>)
        else ([LOG_ERR_invalid cmd], Returned, data))"

text \<open>
  The first \<^verbatim>\<open>switch\<close>, on the result \<open>err\<close> of \<^verbatim>\<open>recv_line\<close>; \<open>cmd\<close> is the text that
  \<^verbatim>\<open>recv_line\<close> wrote to the buffer. \<^verbatim>\<open>cmd[MAX_CMD_LEN - 1] = '\0'\<close> cuts the text printed
  to at most \<open>MAX_CMD_LEN - 1\<close> characters.
\<close>

definition switch_recv_line ::
  "kscan_ptty_config \<Rightarrow> 'cb kscan_ptty_data \<Rightarrow> int \<Rightarrow> string \<Rightarrow>
     'cb action list \<times> ending \<times> 'cb kscan_ptty_data" where
  "switch_recv_line cfg data err cmd =
     (if err = - ENODATA then
        ([LOG_INF_all_processed], if exit_after cfg then Exited 0 else Returned, data)
      else if err = - EOVERFLOW then
        ([LOG_ERR_too_long (take (MAX_CMD_LEN - 1) cmd)], Exited 1, data)
      else if err = 0 then run_command cfg data cmd
      else ([LOG_ERR_unknown (- err)], Exited 1, data))"

text \<open>
  One firing of the work item. The result is the actions, how the handler ended, the
  driver data and the state of the source afterwards.
\<close>

definition kscan_ptty_work_handler ::
  "kscan_ptty_config \<Rightarrow> 's uart_poll_in \<Rightarrow> 's \<Rightarrow> 'cb kscan_ptty_data \<Rightarrow>
     ('cb action list \<times> ending \<times> 'cb kscan_ptty_data) \<times> 's" where
  "kscan_ptty_work_handler cfg poll s data =
     (case recv_line poll s of (err, cmd, s') \<Rightarrow> (switch_recv_line cfg data err cmd, s'))"

subsection \<open>Sources and command lines for stating the properties\<close>

text \<open>
  \<open>delivers poll s c xs\<close>: starting in state \<open>s\<close> with \<open>c\<close> in the character variable,
  the next \<open>length xs\<close> reads all succeed and yield the characters \<open>xs\<close>; the result is
  the state of the source after them.
\<close>

fun delivers :: "'s uart_poll_in \<Rightarrow> 's \<Rightarrow> char \<Rightarrow> string \<Rightarrow> 's option" where
  "delivers poll s c [] = Some s"
| "delivers poll s c (x # xs) =
     (case poll s c of (rc, c', s') \<Rightarrow>
        if rc = 0 \<and> c' = x then delivers poll s' c' xs else None)"

text \<open>Text without a line terminator and without the idle sentinel.\<close>

definition plain :: "string \<Rightarrow> bool" where
  "plain xs = (NL \<notin> set xs \<and> NUL \<notin> set xs)"

text \<open>
  A scripted source for concrete runs: each read takes the next entry of the script, a
  character that arrives or a failure code that leaves the character variable alone.
  When the script is used up, reads fail with \<open>- 1\<close>, the code of \<^verbatim>\<open>uart_poll_in\<close> for
  \<open>no character available\<close>.
\<close>

datatype poll_event = Rx char | Fail int

fun script_poll :: "poll_event list uart_poll_in" where
  "script_poll [] c = (- 1, c, [])"
| "script_poll (Rx x # es) c = (0, x, es)"
| "script_poll (Fail e # es) c = (e, c, es)"

text \<open>The decimal text of a number, as a command line carries it.\<close>

fun show_nat :: "nat \<Rightarrow> string" where
  "show_nat n =
     (if n < 10 then [char_of (48 + n)]
      else show_nat (n div 10) @ [char_of (48 + n mod 10)])"

declare show_nat.simps [simp del]

definition show_int :: "int \<Rightarrow> string" where
  "show_int i = (if i < 0 then CHR ''-'' # show_nat (nat (- i)) else show_nat (nat i))"

text \<open>
  What may follow a number in a command line so that \<^verbatim>\<open>%d\<close> reads exactly the number:
  nothing, or a character that is not a digit.
\<close>

definition no_digit_ahead :: "string \<Rightarrow> bool" where
  "no_digit_ahead rest = (case rest of [] \<Rightarrow> True | c # _ \<Rightarrow> \<not> isdigit c)"


text \<open>
  The text begins, after optional white space, with an optionally signed decimal integer:
  a digit, or a sign and a digit.
\<close>

definition begins_with_integer :: "string \<Rightarrow> bool" where
  "begins_with_integer inp =
     (case dropWhile isspace inp of
        [] \<Rightarrow> False
      | c # cs \<Rightarrow>
          if c = CHR ''-'' \<or> c = CHR ''+'' then (case cs of [] \<Rightarrow> False | d # _ \<Rightarrow> isdigit d)
          else isdigit c)"

section \<open>Properties of \<^verbatim>\<open>recv_line\<close>\<close>

lemma recv_line_loop_delivers:
  "delivers poll s c xs = Some s1 \<Longrightarrow> plain xs \<Longrightarrow> length out + length xs \<le> MAX_CMD_LEN - 1 \<Longrightarrow>
   recv_line_loop poll s c out = recv_line_loop poll s1 (last (c # xs)) (out @ xs)"
proof (induction xs arbitrary: s c out)
  case Nil
  then show ?case by simp
next
  case (Cons x xs)
  obtain rc c' s' where p: "poll s c = (rc, c', s')" by (cases "poll s c")
  with Cons.prems(1) have rc: "rc = 0" and c': "c' = x" and d: "delivers poll s' x xs = Some s1"
    by (auto split: if_splits)
  from Cons.prems(2) have px: "x \<noteq> NL" "x \<noteq> NUL" and pxs: "plain xs"
    by (auto simp: plain_def)
  from Cons.prems(3) have len: "length out < MAX_CMD_LEN - 1" "length (out @ [x]) + length xs \<le> MAX_CMD_LEN - 1"
    by auto
  have "recv_line_loop poll s c out = recv_line_loop poll s' x (out @ [x])"
    using p rc c' px len(1) by (subst recv_line_loop.simps) simp
  also have "\<dots> = recv_line_loop poll s1 (last (x # xs)) ((out @ [x]) @ xs)"
    by (rule Cons.IH [OF d pxs len(2)])
  finally show ?case by simp
qed

lemma delivers_append:
  "delivers poll s c (xs @ ys) =
     (case delivers poll s c xs of None \<Rightarrow> None | Some s1 \<Rightarrow> delivers poll s1 (last (c # xs)) ys)"
  by (induction xs arbitrary: s c) (auto split: prod.splits option.splits)

lemma delivers_last:
  "delivers poll s c (xs @ [t]) = Some s' \<Longrightarrow>
   \<exists>s1. delivers poll s c xs = Some s1 \<and> poll s1 (last (c # xs)) = (0, t, s')"
  by (auto simp: delivers_append split: option.splits prod.splits if_splits)

lemma recv_line_overflow_aux:
  assumes "delivers poll s NUL (xs @ [t]) = Some s'" and "plain xs"
    and "length xs = MAX_CMD_LEN - 1"
  shows "recv_line poll s = (- EOVERFLOW, xs, s')"
proof -
  from delivers_last [OF assms(1)] obtain s1 where
    d: "delivers poll s NUL xs = Some s1" and p: "poll s1 (last (NUL # xs)) = (0, t, s')"
    by blast
  have "recv_line_loop poll s NUL [] = recv_line_loop poll s1 (last (NUL # xs)) ([] @ xs)"
    using assms(3) by (intro recv_line_loop_delivers [OF d assms(2)]) simp
  also have "\<dots> = (Return_overflow, t, xs, s')"
    using p assms(3) by (subst recv_line_loop.simps) auto
  finally show ?thesis
    by (simp add: recv_line_def)
qed

lemma recv_line_codes:
  "fst (recv_line poll s) = 0 \<or> fst (recv_line poll s) = - ENODATA \<or> fst (recv_line poll s) = - EOVERFLOW"
  by (auto simp: recv_line_def split: prod.splits loop_exit.splits)

lemma recv_line_loop_length:
  "length out \<le> MAX_CMD_LEN - 1 \<Longrightarrow> recv_line_loop poll s c out = (how, c', out', s') \<Longrightarrow>
   length out' \<le> MAX_CMD_LEN - 1 \<and> (how = Return_overflow \<longrightarrow> length out' = MAX_CMD_LEN - 1)"
proof (induction poll s c out rule: recv_line_loop.induct)
  case (1 poll s c out)
  obtain rc c1 s1 where p: "poll s c = (rc, c1, s1)" by (cases "poll s c")
  show ?case
  proof (cases "rc = 0 \<and> length out < MAX_CMD_LEN - 1 \<and> c1 \<noteq> NL \<and> c1 \<noteq> NUL")
    case True
    then have "recv_line_loop poll s c out = recv_line_loop poll s1 c1 (out @ [c1])"
      using p by (subst recv_line_loop.simps) simp
    with "1.prems"(2) have "recv_line_loop poll s1 c1 (out @ [c1]) = (how, c', out', s')" by simp
    moreover have "length (out @ [c1]) \<le> MAX_CMD_LEN - 1" using True by simp
    ultimately show ?thesis
      using "1.IH" [OF p [symmetric] refl] True p by auto
  next
    case False
    then show ?thesis
      using "1.prems" p by (subst (asm) recv_line_loop.simps) (auto split: if_splits)
  qed
qed

lemma delivers_take:
  "delivers poll s c xs = Some s1 \<Longrightarrow> \<exists>s2. delivers poll s c (take n xs) = Some s2"
  using delivers_append [of poll s c "take n xs" "drop n xs"]
  by (auto split: option.splits)

lemma recv_line_length: "length (fst (snd (recv_line poll s))) \<le> MAX_CMD_LEN - 1"
proof -
  obtain how c out s' where l: "recv_line_loop poll s NUL [] = (how, c, out, s')"
    by (cases "recv_line_loop poll s NUL []")
  from recv_line_loop_length [OF _ l] have "length out \<le> MAX_CMD_LEN - 1" by simp
  then show ?thesis
    using l by (cases how) (simp_all add: recv_line_def)
qed

section \<open>Properties of \<^verbatim>\<open>sscanf\<close> and \<^verbatim>\<open>kscan_parse_command\<close>\<close>

lemma of_char_digit: "d < 10 \<Longrightarrow> (of_char (char_of (48 + d :: nat)) :: nat) = 48 + d"
  by simp

lemma isdigit_digit: "d < 10 \<Longrightarrow> isdigit (char_of (48 + d :: nat))"
  by (simp add: isdigit_def of_char_digit)

lemma show_nat_digits: "list_all isdigit (show_nat n)"
proof (induction n rule: show_nat.induct)
  case (1 n)
  show ?case
  proof (cases "n < 10")
    case True
    then show ?thesis by (subst show_nat.simps) (simp add: isdigit_digit)
  next
    case False
    then show ?thesis using 1 by (subst show_nat.simps) (simp add: isdigit_digit)
  qed
qed

lemma show_nat_nonempty: "show_nat n \<noteq> []"
  by (subst show_nat.simps) simp

lemma digits_value_snoc:
  "digits_value (ds @ [d]) = 10 * digits_value ds + (of_char d - 48)"
  by (simp add: digits_value_def)

lemma of_char_digit_int: "d < 10 \<Longrightarrow> (of_char (char_of (48 + d :: nat)) :: int) = 48 + int d"
proof -
  assume "d < 10"
  then have "(of_char (char_of (48 + d :: nat)) :: nat) = 48 + d" by (rule of_char_digit)
  then have "int (of_char (char_of (48 + d :: nat))) = int (48 + d)" by simp
  then show ?thesis by (simp add: of_char_def)
qed

lemma digits_value_show_nat: "digits_value (show_nat n) = int n"
proof (induction n rule: show_nat.induct)
  case (1 n)
  show ?case
  proof (cases "n < 10")
    case True
    then show ?thesis
      by (subst show_nat.simps) (simp add: digits_value_def of_char_digit_int)
  next
    case False
    then have "digits_value (show_nat n) = 10 * digits_value (show_nat (n div 10)) + int (n mod 10)"
      by (subst show_nat.simps) (simp add: digits_value_snoc of_char_digit_int)
    also have "\<dots> = 10 * int (n div 10) + int (n mod 10)"
      using 1 False by simp
    also have "\<dots> = int n" by (simp add: zmod_int zdiv_int)
    finally show ?thesis .
  qed
qed


lemma isdigit_not_other:
  "isdigit c \<Longrightarrow> \<not> isspace c \<and> c \<noteq> CHR ''-'' \<and> c \<noteq> CHR ''+''"
  by (auto simp: isdigit_def isspace_def)

lemma takeWhile_digits:
  "list_all isdigit ds \<Longrightarrow> no_digit_ahead rest \<Longrightarrow> takeWhile isdigit (ds @ rest) = ds"
  by (induction ds) (auto simp: no_digit_ahead_def split: list.splits)

lemma dropWhile_digits:
  "list_all isdigit ds \<Longrightarrow> no_digit_ahead rest \<Longrightarrow> dropWhile isdigit (ds @ rest) = rest"
  by (induction ds) (auto simp: no_digit_ahead_def split: list.splits)

lemma conv_d_digits:
  assumes "list_all isdigit ds" and "ds \<noteq> []" and "no_digit_ahead rest"
  shows "conv_d (ds @ rest) = Converted (digits_value ds) rest"
    and "conv_d (CHR ''-'' # ds @ rest) = Converted (- digits_value ds) rest"
proof -
  from assms(1,2) obtain d ds' where ds: "ds = d # ds'" and d: "isdigit d"
    by (cases ds) auto
  have tw: "takeWhile isdigit (ds @ rest) = ds" and dw: "dropWhile isdigit (ds @ rest) = rest"
    using assms by (simp_all add: takeWhile_digits dropWhile_digits)
  have "dropWhile isspace (ds @ rest) = d # ds' @ rest"
    using isdigit_not_other [OF d] by (simp add: ds)
  moreover have "takeWhile isdigit (d # ds' @ rest) = ds" "dropWhile isdigit (d # ds' @ rest) = rest"
    using tw dw by (simp_all add: ds)
  ultimately show "conv_d (ds @ rest) = Converted (digits_value ds) rest"
    using isdigit_not_other [OF d] assms(2) by (simp add: conv_d_def)
  have "\<not> isspace CHR ''-''" by (simp add: isspace_def)
  then have "dropWhile isspace (CHR ''-'' # ds @ rest) = CHR ''-'' # ds @ rest" by simp
  then show "conv_d (CHR ''-'' # ds @ rest) = Converted (- digits_value ds) rest"
    using tw dw assms(2) by (simp add: conv_d_def)
qed

lemma conv_d_show_int:
  assumes "no_digit_ahead rest"
  shows "conv_d (show_int i @ rest) = Converted i rest"
proof (cases "i < 0")
  case True
  then show ?thesis
    using conv_d_digits(2) [OF show_nat_digits show_nat_nonempty assms, of "nat (- i)"]
    by (simp add: show_int_def digits_value_show_nat)
next
  case False
  then show ?thesis
    using conv_d_digits(1) [OF show_nat_digits show_nat_nonempty assms, of "nat i"]
    by (simp add: show_int_def digits_value_show_nat)
qed

lemma directives_p: "directives ''p %d %d'' = [Ordinary CHR ''p'', Whitespace, Conv_d, Whitespace, Conv_d]"
  by (simp add: isspace_def)

lemma directives_r: "directives ''r %d %d'' = [Ordinary CHR ''r'', Whitespace, Conv_d, Whitespace, Conv_d]"
  by (simp add: isspace_def)

lemma directives_w: "directives ''w %d'' = [Ordinary CHR ''w'', Whitespace, Conv_d]"
  by (simp add: isspace_def)

lemma show_int_no_space: "dropWhile isspace (show_int i @ rest) = show_int i @ rest"
proof -
  obtain d ds where ds: "show_nat (nat \<bar>i\<bar>) = d # ds" and d: "isdigit d"
    using show_nat_digits [of "nat \<bar>i\<bar>"] show_nat_nonempty [of "nat \<bar>i\<bar>"]
    by (cases "show_nat (nat \<bar>i\<bar>)") auto
  show ?thesis
  proof (cases "i < 0")
    case True
    then show ?thesis by (simp add: show_int_def isspace_def)
  next
    case False
    then have "show_int i = d # ds" using ds by (simp add: show_int_def)
    then show ?thesis using isdigit_not_other [OF d] by simp
  qed
qed

lemma no_digit_ahead_space: "no_digit_ahead (CHR '' '' # rest)" "no_digit_ahead []"
  by (simp_all add: no_digit_ahead_def isdigit_def)

lemma scan_one:
  assumes "no_digit_ahead rest"
  shows "scan (Whitespace # Conv_d # ds) (CHR '' '' # show_int i @ rest) vs =
         scan ds rest (vs @ [word_of_int i])"
proof -
  have "dropWhile isspace (CHR '' '' # show_int i @ rest) = show_int i @ rest"
    using show_int_no_space [of i rest] by (simp add: isspace_def)
  then show ?thesis
    by (simp add: conv_d_show_int [OF assms])
qed

lemma scan_end:
  "vs \<noteq> [] \<Longrightarrow> scan (Whitespace # Conv_d # ds) [] vs = (int (length vs), vs)"
  by (simp add: conv_d_def)

lemma scan_ordinary: "scan (Ordinary c # ds) (c # inp) vs = scan ds inp vs"
  by simp

lemma scan_p_r:
  assumes "c = CHR ''p'' \<or> c = CHR ''r''"
  shows "scan (directives (if c = CHR ''p'' then ''p %d %d'' else ''r %d %d'')) (c # inp) []
         = scan [Whitespace, Conv_d, Whitespace, Conv_d] inp []"
  using assms by (auto simp add: isspace_def scan_ordinary simp del: scan.simps)

lemma parse_two:
  assumes "c = CHR ''p'' \<or> c = CHR ''r''"
  shows "kscan_parse_command (c # CHR '' '' # show_int (sint R) @ CHR '' '' # show_int (sint C)) args
         = (of_char c, (R, C))"
proof -
  let ?cmd = "c # CHR '' '' # show_int (sint R) @ CHR '' '' # show_int (sint C)"
  let ?fmt = "if c = CHR ''p'' then ''p %d %d'' else ''r %d %d''"
  have "scan (directives ?fmt) ?cmd []
        = scan [Whitespace, Conv_d, Whitespace, Conv_d]
            (CHR '' '' # show_int (sint R) @ CHR '' '' # show_int (sint C)) []"
    by (rule scan_p_r [OF assms])
  also have "\<dots> = scan [Whitespace, Conv_d] (CHR '' '' # show_int (sint C) @ []) ([] @ [word_of_int (sint R)])"
    using no_digit_ahead_space(1) by (simp only: scan_one append_Nil2)
  also have "\<dots> = scan [] [] (([] @ [word_of_int (sint R)]) @ [word_of_int (sint C)])"
    using no_digit_ahead_space(2) by (rule scan_one)
  also have "\<dots> = (2, [R, C])"
    by simp
  finally have "sscanf ?cmd ?fmt args = (2, (R, C))"
    by (simp only: sscanf_def prod.case list.case)
  then show ?thesis
    using assms by (auto simp: kscan_parse_command_def)
qed

lemma parse_one:
  assumes "c = CHR ''p'' \<or> c = CHR ''r''"
  shows "kscan_parse_command (c # CHR '' '' # show_int (sint R)) args = (of_char c, (R, 0))"
proof -
  let ?cmd = "c # CHR '' '' # show_int (sint R)"
  let ?fmt = "if c = CHR ''p'' then ''p %d %d'' else ''r %d %d''"
  have "scan (directives ?fmt) ?cmd []
        = scan [Whitespace, Conv_d, Whitespace, Conv_d] (CHR '' '' # show_int (sint R) @ []) []"
    using scan_p_r [OF assms, of "CHR '' '' # show_int (sint R)"] by (simp only: append_Nil2)
  also have "\<dots> = scan [Whitespace, Conv_d] [] ([] @ [word_of_int (sint R)])"
    using no_digit_ahead_space(2) by (rule scan_one)
  also have "\<dots> = (1, [R])"
    by (subst scan_end) simp_all
  finally have "sscanf ?cmd ?fmt args = (1, (R, snd args))"
    by (simp only: sscanf_def prod.case list.case)
  then show ?thesis
    using assms by (auto simp: kscan_parse_command_def)
qed

lemma parse_wait:
  assumes "no_digit_ahead rest"
  shows "kscan_parse_command (CHR ''w'' # CHR '' '' # show_int (sint D) @ rest) args
         = (of_char CHR ''w'', (D, snd args))"
proof -
  let ?cmd = "CHR ''w'' # CHR '' '' # show_int (sint D) @ rest"
  have "scan (directives ''w %d'') ?cmd []
        = scan [Whitespace, Conv_d] (CHR '' '' # show_int (sint D) @ rest) []"
    by (simp only: directives_w scan_ordinary)
  also have "\<dots> = scan [] rest ([] @ [word_of_int (sint D)])"
    using assms by (rule scan_one)
  also have "\<dots> = (1, [D])"
    by simp
  finally have "sscanf ?cmd ''w %d'' args = (1, (D, snd args))"
    by (simp only: sscanf_def prod.case list.case)
  then show ?thesis
    by (simp add: kscan_parse_command_def)
qed

lemma parse_wait_none:
  assumes "list_all isspace ws"
  shows "kscan_parse_command (CHR ''w'' # ws) args = (- EINVAL, args)"
proof -
  have ws: "dropWhile isspace ws = []" using assms by (induction ws) auto
  have "scan (directives ''w %d'') (CHR ''w'' # ws) [] = scan [Whitespace, Conv_d] ws []"
    by (simp only: directives_w scan_ordinary)
  also have "\<dots> = (EOF, [])"
    by (simp add: conv_d_def ws)
  finally have "sscanf (CHR ''w'' # ws) ''w %d'' args = (EOF, args)"
    by (simp only: sscanf_def prod.case list.case)
  then show ?thesis
    by (simp add: kscan_parse_command_def EOF_def)
qed

lemma parse_codes:
  "fst (kscan_parse_command cmd args) \<in> {of_char CHR ''p'', of_char CHR ''r'', of_char CHR ''w'', - EINVAL}"
  by (auto simp: kscan_parse_command_def Let_def split: prod.splits list.splits)

section \<open>The properties of the specification\<close>

subsection \<open>Reading a line\<close>

lemma conv_d_skips_space: "conv_d (dropWhile isspace inp) = conv_d inp"
  by (simp add: conv_d_def)

lemma takeWhile_digits_Nil:
  "takeWhile isdigit body = [] \<longleftrightarrow> (case body of [] \<Rightarrow> True | d # _ \<Rightarrow> \<not> isdigit d)"
  by (cases body) auto

lemma conv_d_converts:
  "(\<exists>v r. conv_d inp = Converted v r) \<longleftrightarrow> begins_with_integer inp"
proof (cases "dropWhile isspace inp")
  case Nil
  show ?thesis
    unfolding conv_d_def begins_with_integer_def Nil by simp
next
  case (Cons c cs)
  show ?thesis
  proof (cases "c = CHR ''-'' \<or> c = CHR ''+''")
    case True
    then show ?thesis
      unfolding conv_d_def begins_with_integer_def Cons
      by (cases cs) (auto simp: Let_def)
  next
    case False
    then show ?thesis
      unfolding conv_d_def begins_with_integer_def Cons
      by (auto simp: Let_def)
  qed
qed

lemma scan_w:
  "scan (directives ''w %d'') (CHR ''w'' # rest) [] =
     (case conv_d rest of
        Input_failure \<Rightarrow> (EOF, [])
      | Matching_failure \<Rightarrow> (0, [])
      | Converted v r \<Rightarrow> (1, [word_of_int v]))"
proof -
  have "scan (directives ''w %d'') (CHR ''w'' # rest) [] = scan [Whitespace, Conv_d] rest []"
    by (simp only: directives_w scan_ordinary)
  also have "\<dots> = scan [Conv_d] (dropWhile isspace rest) []"
    by simp
  also have "\<dots> = (case conv_d rest of
        Input_failure \<Rightarrow> (EOF, [])
      | Matching_failure \<Rightarrow> (0, [])
      | Converted v r \<Rightarrow> (1, [word_of_int v]))"
    by (simp add: conv_d_skips_space split: conversion.splits)
  finally show ?thesis .
qed

lemma parse_w_line:
  "kscan_parse_command (CHR ''w'' # rest) args =
     (case conv_d rest of
        Input_failure \<Rightarrow> (- EINVAL, args)
      | Matching_failure \<Rightarrow> (- EINVAL, args)
      | Converted v r \<Rightarrow> (of_char CHR ''w'', word_of_int v, snd args))"
proof -
  have "sscanf (CHR ''w'' # rest) ''w %d'' args =
     (case conv_d rest of
        Input_failure \<Rightarrow> (EOF, args)
      | Matching_failure \<Rightarrow> (0, args)
      | Converted v r \<Rightarrow> (1, word_of_int v, snd args))"
    by (simp only: sscanf_def scan_w) (simp split: conversion.splits)
  then show ?thesis
    by (simp add: kscan_parse_command_def EOF_def split: conversion.splits)
qed

text \<open>
  C1 (as amended). For every character source: when the idle sentinel NUL is read with no
  character accumulated, \<^verbatim>\<open>recv_line\<close> returns \<^verbatim>\<open>-ENODATA\<close> (Empty); when the line terminator
  is read with no character accumulated, it returns 0 with the empty line (Ok of an empty
  string); when the terminator or the sentinel is read after 1 to 126 accumulated
  characters, it returns 0 with exactly these characters, the terminator stripped. In
  particular a source whose very first read yields the sentinel produces Empty. Here
  \<open>xs\<close> are the accumulated characters and \<open>t\<close> is the terminator or sentinel.
\<close>

theorem recv_line_terminated:
  assumes "delivers poll s NUL (xs @ [t]) = Some s'" and "plain xs"
    and "length xs < MAX_CMD_LEN - 1" and "t = NL \<or> t = NUL"
  shows "recv_line poll s = (if xs = [] \<and> t = NUL then - ENODATA else 0, xs, s')"
proof -
  from delivers_last [OF assms(1)] obtain s1 where
    d: "delivers poll s NUL xs = Some s1" and p: "poll s1 (last (NUL # xs)) = (0, t, s')"
    by blast
  have "recv_line_loop poll s NUL [] = recv_line_loop poll s1 (last (NUL # xs)) ([] @ xs)"
    using assms(3) by (intro recv_line_loop_delivers [OF d assms(2)]) simp
  also have "\<dots> = (Fell_out, t, xs, s')"
    using p assms(3,4) by (subst recv_line_loop.simps) auto
  finally show ?thesis
    using assms(4) by (auto simp: recv_line_def NL_def NUL_def)
qed

theorem recv_line_terminated_witness:
  "recv_line script_poll [Rx NUL, Rx CHR ''p''] = (- ENODATA, [], [Rx CHR ''p''])
   \<and> recv_line script_poll [Rx NL, Rx CHR ''p''] = (0, [], [Rx CHR ''p''])
   \<and> recv_line script_poll (map Rx ''p 1 2'' @ [Rx NL, Rx CHR ''w''])
       = (0, ''p 1 2'', [Rx CHR ''w''])
   \<and> recv_line script_poll (map Rx ''p 1 2'' @ [Rx NUL]) = (0, ''p 1 2'', [])"
  using recv_line_terminated [of script_poll "[Rx NUL, Rx CHR ''p'']" "[]" NUL "[Rx CHR ''p'']"]
    recv_line_terminated [of script_poll "[Rx NL, Rx CHR ''p'']" "[]" NL "[Rx CHR ''p'']"]
    recv_line_terminated [of script_poll "map Rx ''p 1 2'' @ [Rx NL, Rx CHR ''w'']"
      "''p 1 2''" NL "[Rx CHR ''w'']"]
    recv_line_terminated [of script_poll "map Rx ''p 1 2'' @ [Rx NUL]" "''p 1 2''" NUL "[]"]
  by (simp add: plain_def NL_def NUL_def MAX_CMD_LEN_def)

text \<open>
  C1 as stated fails: a source whose first read yields the line terminator, with no
  character accumulated, gets return code 0 and the empty line, not \<^verbatim>\<open>-ENODATA\<close>.
\<close>

theorem recv_line_newline_first_counterexample:
  "recv_line script_poll [Rx NL] = (0, [], [])
   \<and> fst (recv_line script_poll [Rx NL]) \<noteq> - ENODATA"
  by (simp add: recv_line_def recv_line_loop.simps NL_def NUL_def MAX_CMD_LEN_def ENODATA_def)

text \<open>
  C8 (the code deviates). A line of exactly 127 characters followed by the terminator fits
  the buffer of \<open>MAX_CMD_LEN\<close> bytes, but \<^verbatim>\<open>recv_line\<close> tests \<^verbatim>\<open>out - buf >= MAX_CMD_LEN - 1\<close>
  before it looks at the character just read, so the read of the terminator itself
  returns \<^verbatim>\<open>-EOVERFLOW\<close> and the handler exits with code 1. The same 127 characters ended by
  a failed read are returned with code 0.
\<close>

theorem recv_line_127_then_newline:
  "recv_line script_poll (map Rx (replicate 127 CHR ''a'') @ [Rx NL])
     = (- EOVERFLOW, replicate 127 CHR ''a'', [])
   \<and> fst (kscan_ptty_work_handler \<lparr>delay_ms = 10, exit_after = False\<rparr> script_poll
       (map Rx (replicate 127 CHR ''a'') @ [Rx NL]) \<lparr>callback = Some (7::nat), cmd_idx = 0\<rparr>)
     = ([LOG_ERR_too_long (replicate 127 CHR ''a'')], Exited 1,
        \<lparr>callback = Some 7, cmd_idx = 0\<rparr>)
   \<and> recv_line script_poll (map Rx (replicate 127 CHR ''a'') @ [Fail (- 1)])
     = (0, replicate 127 CHR ''a'', [])"
  by code_simp

text \<open>
  C9 (as amended). When a read fails (any non-zero code of \<^verbatim>\<open>uart_poll_in\<close>) after the source
  has delivered the characters \<open>xs\<close>, \<^verbatim>\<open>recv_line\<close> does not return the code of the failure:
  the failed read ends the line. The result is \<^verbatim>\<open>-ENODATA\<close> when no character has been
  accumulated and the character variable holds NUL, and 0 with the accumulated
  characters otherwise. The first \<^verbatim>\<open>switch\<close> of the handler logs the code and exits with
  code 1 for every result of \<^verbatim>\<open>recv_line\<close> other than 0, \<^verbatim>\<open>-ENODATA\<close> and \<^verbatim>\<open>-EOVERFLOW\<close>.
\<close>

theorem recv_line_failed_read:
  assumes "delivers poll s NUL xs = Some s1" and "plain xs"
    and "length xs \<le> MAX_CMD_LEN - 1"
    and "poll s1 (last (NUL # xs)) = (rc, c', s')" and "rc \<noteq> 0"
  shows "recv_line poll s = (if xs = [] \<and> c' = NUL then - ENODATA else 0, xs, s')
         \<and> (err \<noteq> 0 \<and> err \<noteq> - ENODATA \<and> err \<noteq> - EOVERFLOW \<longrightarrow>
              switch_recv_line cfg data err cmd = ([LOG_ERR_unknown (- err)], Exited 1, data))"
proof -
  have "recv_line_loop poll s NUL [] = recv_line_loop poll s1 (last (NUL # xs)) ([] @ xs)"
    using assms(3) by (intro recv_line_loop_delivers [OF assms(1,2)]) simp
  also have "\<dots> = (Fell_out, c', xs, s')"
    using assms(4,5) by (subst recv_line_loop.simps) auto
  finally show ?thesis
    by (simp add: recv_line_def switch_recv_line_def)
qed

theorem recv_line_failed_read_witness:
  "recv_line script_poll [Fail (- 5)] = (- ENODATA, [], [])
   \<and> recv_line script_poll (map Rx ''p 1'' @ [Fail (- 5)]) = (0, ''p 1'', [])
   \<and> switch_recv_line \<lparr>delay_ms = 10, exit_after = False\<rparr>
        \<lparr>callback = Some (7::nat), cmd_idx = 0\<rparr> (- 5) []
       = ([LOG_ERR_unknown 5], Exited 1, \<lparr>callback = Some 7, cmd_idx = 0\<rparr>)"
  using recv_line_failed_read [of script_poll "[Fail (- 5)]" "[]" "[Fail (- 5)]" "- 5" NUL "[]"
      "- 5" "\<lparr>delay_ms = 10, exit_after = False\<rparr>" "\<lparr>callback = Some (7::nat), cmd_idx = 0\<rparr>" "[]"]
    recv_line_failed_read [of script_poll "map Rx ''p 1'' @ [Fail (- 5)]" "''p 1''" "[Fail (- 5)]"
      "- 5" "CHR ''1''" "[]"
      "- 5" "\<lparr>delay_ms = 10, exit_after = False\<rparr>" "\<lparr>callback = Some (7::nat), cmd_idx = 0\<rparr>" "[]"]
  by (simp add: plain_def NL_def NUL_def MAX_CMD_LEN_def ENODATA_def EOVERFLOW_def)

text \<open>
  C9 as stated fails: a source whose first read fails with code \<open>- 5\<close> makes \<^verbatim>\<open>recv_line\<close>
  return \<^verbatim>\<open>-ENODATA\<close>, and the handler, with \<^verbatim>\<open>exit_after\<close> unset, returns without exiting.
\<close>

theorem recv_line_fault_counterexample:
  "recv_line script_poll [Fail (- 5)] = (- ENODATA, [], [])
   \<and> fst (recv_line script_poll [Fail (- 5)]) \<noteq> - 5
   \<and> kscan_ptty_work_handler \<lparr>delay_ms = 10, exit_after = False\<rparr> script_poll [Fail (- 5)]
        \<lparr>callback = Some (7::nat), cmd_idx = 0\<rparr>
       = (([LOG_INF_all_processed], Returned, \<lparr>callback = Some 7, cmd_idx = 0\<rparr>), [])"
  by code_simp

subsection \<open>Parsing a command\<close>

text \<open>
  C3. For all \<^verbatim>\<open>int\<close> values \<open>R\<close> and \<open>C\<close>, written in decimal: the line \<^verbatim>\<open>p R C\<close> is parsed to
  the command code \<^verbatim>\<open>'p'\<close> with \<^verbatim>\<open>args = {R, C}\<close> (Press), \<^verbatim>\<open>r R C\<close> to \<^verbatim>\<open>'r'\<close> with
  \<^verbatim>\<open>args = {R, C}\<close> (Release), and \<^verbatim>\<open>p R\<close> and \<^verbatim>\<open>r R\<close>, with the second argument omitted, to
  \<^verbatim>\<open>args = {R, 0}\<close>.
\<close>

theorem parse_press_release:
  "kscan_parse_command (''p '' @ show_int (sint R) @ '' '' @ show_int (sint C)) args
     = (of_char CHR ''p'', R, C)
   \<and> kscan_parse_command (''r '' @ show_int (sint R) @ '' '' @ show_int (sint C)) args
     = (of_char CHR ''r'', R, C)
   \<and> kscan_parse_command (''p '' @ show_int (sint R)) args = (of_char CHR ''p'', R, 0)
   \<and> kscan_parse_command (''r '' @ show_int (sint R)) args = (of_char CHR ''r'', R, 0)"
  using parse_two [of "CHR ''p''" R C args] parse_two [of "CHR ''r''" R C args]
    parse_one [of "CHR ''p''" R args] parse_one [of "CHR ''r''" R args]
  by simp

theorem parse_press_release_witness:
  "kscan_parse_command ''p 3 -7'' (- 1, - 1) = (112, 3, - 7)
   \<and> kscan_parse_command ''r 3 -7'' (- 1, - 1) = (114, 3, - 7)
   \<and> kscan_parse_command ''p 3'' (- 1, - 1) = (112, 3, 0)
   \<and> kscan_parse_command ''r 3'' (- 1, - 1) = (114, 3, 0)"
proof -
  have three: "show_int 3 = ''3''" by code_simp
  have seven: "show_int (- 7) = ''-7''" by code_simp
  show ?thesis
    using parse_press_release [of 3 "- 7" "(- 1, - 1)"] by (simp add: three seven)
qed

text \<open>
  C4 (as amended). For every line whose first character is \<^verbatim>\<open>w\<close>: it is parsed to the
  command code \<^verbatim>\<open>'w'\<close> (Wait) exactly when the text after the tag begins, after optional
  white space, with an optionally signed decimal integer; \<^verbatim>\<open>args[0]\<close> is then this integer
  and the text after it is ignored, so \<^verbatim>\<open>w D\<close> and \<^verbatim>\<open>w D\<close> followed by further arguments
  both give Wait with \<^verbatim>\<open>args[0] = D\<close>. Every other line with the tag \<^verbatim>\<open>w\<close>, with no
  argument or with a malformed one, is rejected with \<^verbatim>\<open>-EINVAL\<close> and \<^verbatim>\<open>args\<close> unchanged.
\<close>

theorem parse_wait_amended:
  "(no_digit_ahead rest \<longrightarrow>
      kscan_parse_command (''w '' @ show_int (sint D) @ rest) args
        = (of_char CHR ''w'', D, snd args))
   \<and> (list_all isspace ws \<longrightarrow> kscan_parse_command (CHR ''w'' # ws) args = (- EINVAL, args))
   \<and> kscan_parse_command (CHR ''w'' # line) args =
       (case conv_d line of
          Input_failure \<Rightarrow> (- EINVAL, args)
        | Matching_failure \<Rightarrow> (- EINVAL, args)
        | Converted v r \<Rightarrow> (of_char CHR ''w'', word_of_int v, snd args))
   \<and> (fst (kscan_parse_command (CHR ''w'' # line) args) = of_char CHR ''w''
        \<longleftrightarrow> begins_with_integer line)
   \<and> (\<not> begins_with_integer line \<longrightarrow>
        kscan_parse_command (CHR ''w'' # line) args = (- EINVAL, args))"
proof -
  have neq: "(of_char CHR ''w'' :: int) \<noteq> - EINVAL"
    by (simp add: EINVAL_def)
  have iff: "fst (kscan_parse_command (CHR ''w'' # line) args) = of_char CHR ''w''
        \<longleftrightarrow> begins_with_integer line"
    using conv_d_converts [of line] neq
    by (cases "conv_d line") (simp_all add: parse_w_line EINVAL_def)
  have rej: "\<not> begins_with_integer line \<longrightarrow>
        kscan_parse_command (CHR ''w'' # line) args = (- EINVAL, args)"
    using conv_d_converts [of line]
    by (cases "conv_d line") (simp_all add: parse_w_line)
  show ?thesis
    using parse_wait [of rest D args] parse_wait_none [of ws args] parse_w_line [of line args]
      iff rej
    by simp
qed

theorem parse_wait_amended_witness:
  "kscan_parse_command ''w 5'' (- 1, - 1) = (119, 5, - 1)
   \<and> kscan_parse_command ''w 5 6'' (- 1, - 1) = (119, 5, - 1)
   \<and> kscan_parse_command ''w'' (- 1, - 1) = (- EINVAL, - 1, - 1)
   \<and> kscan_parse_command ''w  '' (- 1, - 1) = (- EINVAL, - 1, - 1)
   \<and> kscan_parse_command ''w abc'' (- 1, - 1) = (- EINVAL, - 1, - 1)
   \<and> kscan_parse_command ''w -'' (- 1, - 1) = (- EINVAL, - 1, - 1)
   \<and> kscan_parse_command ''w x5'' (- 1, - 1) = (- EINVAL, - 1, - 1)
   \<and> begins_with_integer '' -12 7''
   \<and> fst (kscan_parse_command ''w -12 7'' (- 1, - 1)) = 119"
proof -
  have five: "show_int 5 = ''5''" by code_simp
  have b: "begins_with_integer '' -12 7''" by code_simp
  have abc: "\<not> begins_with_integer '' abc''" by code_simp
  have minus: "\<not> begins_with_integer '' -''" by code_simp
  have x5: "\<not> begins_with_integer '' x5''" by code_simp
  have c1: "conv_d '' abc'' = Matching_failure" by code_simp
  have c2: "conv_d '' -'' = Matching_failure" by code_simp
  have c3: "conv_d '' x5'' = Matching_failure" by code_simp
  have c4: "conv_d '' -12 7'' = Converted (- 12) '' 7''" by code_simp
  show ?thesis
    using parse_wait_amended [of "[]" 5 "(- 1, - 1)" "[]" "'' abc''"]
      parse_wait_amended [of "'' 6''" 5 "(- 1, - 1)" "''  ''" "'' -''"]
      parse_wait_amended [of "[]" 5 "(- 1, - 1)" "[]" "'' x5''"]
      parse_wait_amended [of "[]" 5 "(- 1, - 1)" "[]" "'' -12 7''"]
      b abc minus x5
    by (simp add: five c1 c2 c3 c4 no_digit_ahead_def isdigit_def isspace_def)
qed

text \<open>
  C4 as stated fails: the line \<^verbatim>\<open>w 5 6\<close>, with two arguments, is not rejected; it is parsed
  to Wait with \<^verbatim>\<open>args[0] = 5\<close>.
\<close>

theorem parse_wait_extra_counterexample:
  "kscan_parse_command ''w 5 6'' (- 1, - 1) = (of_char CHR ''w'', 5, - 1)
   \<and> fst (kscan_parse_command ''w 5 6'' (- 1, - 1)) \<noteq> - EINVAL"
  by code_simp

subsection \<open>One tick of the work handler\<close>

text \<open>
  C2. On a tick whose line is read with code 0 and parsed with the result \<open>rc\<close> and
  \<^verbatim>\<open>args = {row, col}\<close>, with a callback registered: for \<^verbatim>\<open>'w'\<close> the handler schedules the
  work item after \<^verbatim>\<open>args[0]\<close> milliseconds and does not call the sink; for \<^verbatim>\<open>'p'\<close> and \<^verbatim>\<open>'r'\<close>
  it calls the sink exactly once with \<open>(row, col, is_press)\<close>, \<open>is_press\<close> true for \<^verbatim>\<open>'p'\<close>
  and false for \<^verbatim>\<open>'r'\<close>, and then schedules the work item after \<^verbatim>\<open>delay_ms\<close>. A parse that
  does not fail has one of these three results.
\<close>

theorem work_handler_parsed:
  assumes "recv_line poll s = (0, cmd, s')"
    and "kscan_parse_command cmd (- 1, - 1) = (rc, row, col)"
    and "callback data = Some cb"
  shows "(rc = of_char CHR ''w'' \<longrightarrow>
            kscan_ptty_work_handler cfg poll s data =
              (([LOG_DBG_wait (cmd_idx data) row, K_work_schedule row], Returned,
                data\<lparr>cmd_idx := cmd_idx data + 1\<rparr>), s'))
       \<and> (rc = of_char CHR ''p'' \<longrightarrow>
            kscan_ptty_work_handler cfg poll s data =
              (([LOG_DBG_event (cmd_idx data) True row col, Callback cb row col True,
                 K_work_schedule (delay_ms cfg)], Returned,
                data\<lparr>cmd_idx := cmd_idx data + 1\<rparr>), s'))
       \<and> (rc = of_char CHR ''r'' \<longrightarrow>
            kscan_ptty_work_handler cfg poll s data =
              (([LOG_DBG_event (cmd_idx data) False row col, Callback cb row col False,
                 K_work_schedule (delay_ms cfg)], Returned,
                data\<lparr>cmd_idx := cmd_idx data + 1\<rparr>), s'))
       \<and> (rc \<noteq> - EINVAL \<longrightarrow>
            rc = of_char CHR ''w'' \<or> rc = of_char CHR ''p'' \<or> rc = of_char CHR ''r'')"
proof -
  have "rc = of_char CHR ''p'' \<or> rc = of_char CHR ''r'' \<or> rc = of_char CHR ''w'' \<or> rc = - EINVAL"
    using parse_codes [of cmd "(- 1, - 1)"] assms(2) by simp
  then show ?thesis
    using assms
    by (auto simp: kscan_ptty_work_handler_def switch_recv_line_def run_command_def
        report_key_def ENODATA_def EOVERFLOW_def)
qed

theorem work_handler_parsed_witness:
  "kscan_ptty_work_handler \<lparr>delay_ms = 10, exit_after = True\<rparr> script_poll
      (map Rx ''p 1 2'' @ [Rx NL]) \<lparr>callback = Some (7::nat), cmd_idx = 0\<rparr>
     = (([LOG_DBG_event 0 True 1 2, Callback 7 1 2 True, K_work_schedule 10], Returned,
         \<lparr>callback = Some 7, cmd_idx = 1\<rparr>), [])
   \<and> kscan_ptty_work_handler \<lparr>delay_ms = 10, exit_after = True\<rparr> script_poll
      (map Rx ''r 1 2'' @ [Rx NL]) \<lparr>callback = Some (7::nat), cmd_idx = 1\<rparr>
     = (([LOG_DBG_event 1 False 1 2, Callback 7 1 2 False, K_work_schedule 10], Returned,
         \<lparr>callback = Some 7, cmd_idx = 2\<rparr>), [])
   \<and> kscan_ptty_work_handler \<lparr>delay_ms = 10, exit_after = True\<rparr> script_poll
      (map Rx ''w 50'' @ [Rx NL]) \<lparr>callback = Some (7::nat), cmd_idx = 2\<rparr>
     = (([LOG_DBG_wait 2 50, K_work_schedule 50], Returned,
         \<lparr>callback = Some 7, cmd_idx = 3\<rparr>), [])"
proof -
  have p: "recv_line script_poll (map Rx ''p 1 2'' @ [Rx NL]) = (0, ''p 1 2'', [])"
    by code_simp
  have r: "recv_line script_poll (map Rx ''r 1 2'' @ [Rx NL]) = (0, ''r 1 2'', [])"
    by code_simp
  have w: "recv_line script_poll (map Rx ''w 50'' @ [Rx NL]) = (0, ''w 50'', [])"
    by code_simp
  have pp: "kscan_parse_command ''p 1 2'' (- 1, - 1) = (of_char CHR ''p'', 1, 2)"
    by code_simp
  have pr: "kscan_parse_command ''r 1 2'' (- 1, - 1) = (of_char CHR ''r'', 1, 2)"
    by code_simp
  have pw: "kscan_parse_command ''w 50'' (- 1, - 1) = (of_char CHR ''w'', 50, - 1)"
    by code_simp
  show ?thesis
    using work_handler_parsed [OF p pp, of "\<lparr>callback = Some (7::nat), cmd_idx = 0\<rparr>" 7
        "\<lparr>delay_ms = 10, exit_after = True\<rparr>"]
      work_handler_parsed [OF r pr, of "\<lparr>callback = Some (7::nat), cmd_idx = 1\<rparr>" 7
        "\<lparr>delay_ms = 10, exit_after = True\<rparr>"]
      work_handler_parsed [OF w pw, of "\<lparr>callback = Some (7::nat), cmd_idx = 2\<rparr>" 7
        "\<lparr>delay_ms = 10, exit_after = True\<rparr>"]
    by simp
qed

text \<open>
  C5. When \<^verbatim>\<open>recv_line\<close> returns \<^verbatim>\<open>-ENODATA\<close>, the handler logs the information line and then
  exits with code 0 if \<^verbatim>\<open>exit_after\<close> is set, and returns otherwise; it does not call the
  sink, does not schedule the work item and logs no error.
\<close>

theorem work_handler_empty:
  assumes "recv_line poll s = (- ENODATA, cmd, s')"
  shows "kscan_ptty_work_handler cfg poll s data =
           (([LOG_INF_all_processed], if exit_after cfg then Exited 0 else Returned, data), s')
         \<and> sink_calls (fst (fst (kscan_ptty_work_handler cfg poll s data))) = []
         \<and> schedule_calls (fst (fst (kscan_ptty_work_handler cfg poll s data))) = []
         \<and> error_logs (fst (fst (kscan_ptty_work_handler cfg poll s data))) = []"
  using assms by (simp add: kscan_ptty_work_handler_def switch_recv_line_def)

theorem work_handler_empty_witness:
  "kscan_ptty_work_handler \<lparr>delay_ms = 10, exit_after = True\<rparr> script_poll [Rx NUL]
      \<lparr>callback = Some (7::nat), cmd_idx = 3\<rparr>
     = (([LOG_INF_all_processed], Exited 0, \<lparr>callback = Some 7, cmd_idx = 3\<rparr>), [])
   \<and> kscan_ptty_work_handler \<lparr>delay_ms = 10, exit_after = False\<rparr> script_poll [Rx NUL]
      \<lparr>callback = Some (7::nat), cmd_idx = 3\<rparr>
     = (([LOG_INF_all_processed], Returned, \<lparr>callback = Some 7, cmd_idx = 3\<rparr>), [])"
proof -
  have e: "recv_line script_poll [Rx NUL] = (- ENODATA, [], [])"
    by code_simp
  show ?thesis
    using work_handler_empty [OF e, of "\<lparr>delay_ms = 10, exit_after = True\<rparr>"
        "\<lparr>callback = Some (7::nat), cmd_idx = 3\<rparr>"]
      work_handler_empty [OF e, of "\<lparr>delay_ms = 10, exit_after = False\<rparr>"
        "\<lparr>callback = Some (7::nat), cmd_idx = 3\<rparr>"]
    by simp
qed

text \<open>
  C6. When the line is read with code 0 and \<^verbatim>\<open>kscan_parse_command\<close> returns \<^verbatim>\<open>-EINVAL\<close>, the
  handler logs the rejected line and returns: it does not schedule the work item, does
  not call the sink and does not exit.
\<close>

theorem work_handler_invalid:
  assumes "recv_line poll s = (0, cmd, s')"
    and "fst (kscan_parse_command cmd (- 1, - 1)) = - EINVAL"
  shows "kscan_ptty_work_handler cfg poll s data = (([LOG_ERR_invalid cmd], Returned, data), s')
         \<and> sink_calls (fst (fst (kscan_ptty_work_handler cfg poll s data))) = []
         \<and> schedule_calls (fst (fst (kscan_ptty_work_handler cfg poll s data))) = []"
  using assms
  by (auto simp: kscan_ptty_work_handler_def switch_recv_line_def run_command_def
      ENODATA_def EOVERFLOW_def EINVAL_def split: prod.splits)

theorem work_handler_invalid_witness:
  "kscan_ptty_work_handler \<lparr>delay_ms = 10, exit_after = True\<rparr> script_poll
      (map Rx ''x 1 2'' @ [Rx NL]) \<lparr>callback = Some (7::nat), cmd_idx = 0\<rparr>
     = (([LOG_ERR_invalid ''x 1 2''], Returned, \<lparr>callback = Some 7, cmd_idx = 0\<rparr>), [])"
proof -
  have x: "recv_line script_poll (map Rx ''x 1 2'' @ [Rx NL]) = (0, ''x 1 2'', [])"
    by code_simp
  have px: "fst (kscan_parse_command ''x 1 2'' (- 1, - 1)) = - EINVAL"
    by code_simp
  show ?thesis
    using work_handler_invalid [OF x px, of "\<lparr>delay_ms = 10, exit_after = True\<rparr>"
        "\<lparr>callback = Some (7::nat), cmd_idx = 0\<rparr>"]
    by simp
qed

text \<open>
  C7. For every source that delivers 128 or more characters without line terminator and
  without sentinel, \<^verbatim>\<open>recv_line\<close> returns \<^verbatim>\<open>-EOVERFLOW\<close>, the buffer holds the first 127 of
  the characters, and the handler logs this text and exits with code 1 without calling
  the sink.
\<close>

theorem work_handler_overflow:
  assumes "delivers poll s NUL xs = Some s1" and "plain xs" and "length xs \<ge> MAX_CMD_LEN"
  shows "fst (recv_line poll s) = - EOVERFLOW
         \<and> fst (snd (recv_line poll s)) = take (MAX_CMD_LEN - 1) xs
         \<and> length (fst (snd (recv_line poll s))) = MAX_CMD_LEN - 1
         \<and> fst (kscan_ptty_work_handler cfg poll s data) =
             ([LOG_ERR_too_long (take (MAX_CMD_LEN - 1) xs)], Exited 1, data)
         \<and> sink_calls (fst (fst (kscan_ptty_work_handler cfg poll s data))) = []"
proof -
  let ?ys = "take (MAX_CMD_LEN - 1) xs"
  from delivers_take [OF assms(1), of MAX_CMD_LEN] obtain s2 where
    d: "delivers poll s NUL (take MAX_CMD_LEN xs) = Some s2" by blast
  have split: "take MAX_CMD_LEN xs = ?ys @ [xs ! (MAX_CMD_LEN - 1)]"
    using assms(3) take_Suc_conv_app_nth [of 127 xs] by (simp add: MAX_CMD_LEN_def)
  have len: "length ?ys = MAX_CMD_LEN - 1"
    using assms(3) by simp
  have "plain ?ys"
    using assms(2) by (auto simp: plain_def dest: in_set_takeD)
  then have r: "recv_line poll s = (- EOVERFLOW, ?ys, s2)"
    using d len unfolding split by (intro recv_line_overflow_aux)
  then show ?thesis
    using len
    by (simp add: kscan_ptty_work_handler_def switch_recv_line_def ENODATA_def EOVERFLOW_def)
qed

theorem work_handler_overflow_witness:
  "fst (recv_line script_poll (map Rx (replicate 200 CHR ''a''))) = - EOVERFLOW
   \<and> fst (snd (recv_line script_poll (map Rx (replicate 200 CHR ''a''))))
       = take (MAX_CMD_LEN - 1) (replicate 200 CHR ''a'')
   \<and> length (fst (snd (recv_line script_poll (map Rx (replicate 200 CHR ''a'')))))
       = MAX_CMD_LEN - 1
   \<and> fst (kscan_ptty_work_handler \<lparr>delay_ms = 10, exit_after = True\<rparr> script_poll
       (map Rx (replicate 200 CHR ''a'')) \<lparr>callback = Some (7::nat), cmd_idx = 0\<rparr>)
       = ([LOG_ERR_too_long (take (MAX_CMD_LEN - 1) (replicate 200 CHR ''a''))], Exited 1,
          \<lparr>callback = Some 7, cmd_idx = 0\<rparr>)
   \<and> sink_calls (fst (fst (kscan_ptty_work_handler \<lparr>delay_ms = 10, exit_after = True\<rparr>
       script_poll (map Rx (replicate 200 CHR ''a''))
       \<lparr>callback = Some (7::nat), cmd_idx = 0\<rparr>))) = []"
proof -
  have d: "delivers script_poll (map Rx (replicate 200 CHR ''a'')) NUL (replicate 200 CHR ''a'')
             = Some []"
    by code_simp
  have p: "plain (replicate 200 CHR ''a'')"
    by (simp add: plain_def NL_def NUL_def)
  have l: "length (replicate 200 CHR ''a'') \<ge> MAX_CMD_LEN"
    by (simp add: MAX_CMD_LEN_def)
  show ?thesis
    by (rule work_handler_overflow [OF d p l])
qed

subsection \<open>Registering the callback\<close>

text \<open>
  C10. \<^verbatim>\<open>kscan_ptty_configure\<close> with a null callback returns \<^verbatim>\<open>-EINVAL\<close>, leaves the driver
  data as it was and schedules nothing; with a callback it stores the callback,
  schedules the work item after \<^verbatim>\<open>delay_ms\<close> and returns 0.
\<close>

theorem kscan_ptty_configure_result:
  "kscan_ptty_configure cfg data None = (- EINVAL, data, [])
   \<and> kscan_ptty_configure cfg data (Some cb) =
       (0, data\<lparr>callback := Some cb\<rparr>, [K_work_schedule (delay_ms cfg)])"
  by (simp add: kscan_ptty_configure_def)

theorem kscan_ptty_configure_result_witness:
  "kscan_ptty_configure \<lparr>delay_ms = 10, exit_after = False\<rparr>
     \<lparr>callback = None, cmd_idx = 0\<rparr> None
     = (- EINVAL, \<lparr>callback = None :: nat option, cmd_idx = 0\<rparr>, [])
   \<and> kscan_ptty_configure \<lparr>delay_ms = 10, exit_after = False\<rparr>
       \<lparr>callback = None, cmd_idx = 0\<rparr> (Some (7::nat))
     = (0, \<lparr>callback = Some 7, cmd_idx = 0\<rparr>, [K_work_schedule 10])"
  using kscan_ptty_configure_result
    [of "\<lparr>delay_ms = 10, exit_after = False\<rparr>" "\<lparr>callback = None, cmd_idx = 0\<rparr>" "7::nat"]
  by simp

end
